theory Spec2Isabelle
  imports Complex_Main "HOL-Library.AList"
begin

text \<open>
  The notification script \<open>sabnzbd-discord.py\<close>: its functions
  \<open>extract_fields_from_message\<close>, \<open>color_emoji_for_color\<close>,
  \<open>make_embed\<close> with its local \<open>hsl_to_rgb_int\<close>, \<open>send_webhook\<close> and
  \<open>main\<close>, as functions of their arguments and of what they read from outside:
  the clock, the rounding of floating point and the network. The stray name on line 19
  of the script, which stops the module from loading, is outside these functions.
\<close>

section \<open>Python text\<close>

text \<open>
  A Python \<open>str\<close> is a sequence of Unicode code points, so a string is a list of
  code points and \<open>length\<close> counts what \<open>len\<close> counts. The literals of the script
  are written through \<open>lit\<close>; glyphs outside ASCII are given by their code points.
\<close>

type_synonym pystr = "nat list"

definition lit :: "string \<Rightarrow> pystr" where
  "lit s = map of_char s"

definition colon :: nat where "colon = 58"
definition comma :: nat where "comma = 44"
definition LF :: nat where "LF = 10"
definition CR :: nat where "CR = 13"
definition SP :: nat where "SP = 32"

text \<open>
  \<open>str.strip()\<close> removes the code points for which \<open>str.isspace\<close> holds:
  TAB, LF, VT, FF, CR, the separators FS, GS, RS, US, the space, NEL, NBSP and the
  Unicode space separators.
\<close>

definition isspace :: "nat \<Rightarrow> bool" where
  "isspace c \<longleftrightarrow>
     (9 \<le> c \<and> c \<le> 13) \<or> (28 \<le> c \<and> c \<le> 32) \<or> c = 0x85 \<or> c = 0xA0 \<or> c = 0x1680 \<or>
     (0x2000 \<le> c \<and> c \<le> 0x200A) \<or> c = 0x2028 \<or> c = 0x2029 \<or> c = 0x202F \<or>
     c = 0x205F \<or> c = 0x3000"

text \<open>
  \<open>str.splitlines()\<close> breaks at LF, VT, FF, CR, FS, GS, RS, NEL, LS and PS, and
  takes CR LF as one boundary.
\<close>

definition islinebreak :: "nat \<Rightarrow> bool" where
  "islinebreak c \<longleftrightarrow>
     (10 \<le> c \<and> c \<le> 13) \<or> (28 \<le> c \<and> c \<le> 30) \<or> c = 0x85 \<or> c = 0x2028 \<or> c = 0x2029"

definition strip :: "pystr \<Rightarrow> pystr" where
  "strip s = rev (dropWhile isspace (rev (dropWhile isspace s)))"

text \<open>
  Case mapping. On a string of ASCII code points \<open>str.lower\<close> maps the letters
  \<open>A\<close> to \<open>Z\<close> to \<open>a\<close> to \<open>z\<close> and leaves the rest, and
  \<open>str.capitalize\<close> puts the first code point in upper case and the others in
  lower case. On any other string the two follow the Unicode case tables of the Python
  runtime, which are no part of the repository: there they are the parameters
  \<open>ulower\<close> and \<open>ucapitalize\<close> of the model.

  The key test of the field extraction needs no table: \<open>lower_ascii\<close> decides it
  as \<open>str.lower\<close> does on every string. The lower case of a code point outside
  ASCII holds a code point outside ASCII, but for U+212A, whose lower case is \<open>k\<close>;
  and no field name has a \<open>k\<close>.
\<close>

definition lower_cp :: "nat \<Rightarrow> nat" where
  "lower_cp c = (if 65 \<le> c \<and> c \<le> 90 then c + 32 else c)"

definition upper_cp :: "nat \<Rightarrow> nat" where
  "upper_cp c = (if 97 \<le> c \<and> c \<le> 122 then c - 32 else c)"

definition lower_ascii :: "pystr \<Rightarrow> pystr" where
  "lower_ascii s = map lower_cp s"

fun capitalize_ascii :: "pystr \<Rightarrow> pystr" where
  "capitalize_ascii [] = []"
| "capitalize_ascii (c # cs) = upper_cp c # lower_ascii cs"

definition is_ascii :: "pystr \<Rightarrow> bool" where
  "is_ascii s = list_all (\<lambda>c. c < 128) s"

definition str_lower :: "(pystr \<Rightarrow> pystr) \<Rightarrow> pystr \<Rightarrow> pystr" where
  "str_lower ulower s = (if is_ascii s then lower_ascii s else ulower s)"

definition str_capitalize :: "(pystr \<Rightarrow> pystr) \<Rightarrow> pystr \<Rightarrow> pystr" where
  "str_capitalize ucapitalize s = (if is_ascii s then capitalize_ascii s else ucapitalize s)"

text \<open>
  The scan of \<open>splitlines\<close>: \<open>cur\<close> holds the current line, reversed. A line is
  closed at each boundary; the text left after the last boundary is a line only when it
  is not empty.
\<close>

fun splitlines_from :: "pystr \<Rightarrow> pystr \<Rightarrow> pystr list" where
  "splitlines_from cur [] = (if cur = [] then [] else [rev cur])"
| "splitlines_from cur (c # cs) =
     (if c = CR \<and> cs \<noteq> [] \<and> hd cs = LF then rev cur # splitlines_from [] (tl cs)
      else if islinebreak c then rev cur # splitlines_from [] cs
      else splitlines_from (c # cur) cs)"

definition splitlines :: "pystr \<Rightarrow> pystr list" where
  "splitlines s = splitlines_from [] s"

text \<open>\<open>sep.join(parts)\<close> for a one-character separator.\<close>

fun join :: "nat \<Rightarrow> pystr list \<Rightarrow> pystr" where
  "join sep [] = []"
| "join sep [p] = p"
| "join sep (p # q # ps) = p @ sep # join sep (q # ps)"

text \<open>
  \<open>s.split(sep, 1)\<close> for a separator that occurs in \<open>s\<close>: the text before its first
  occurrence and the text after it. The script calls it only under the test
  \<open>sep in s\<close>, where Python returns exactly these two parts.
\<close>

fun split_once :: "nat \<Rightarrow> pystr \<Rightarrow> pystr \<times> pystr" where
  "split_once sep [] = ([], [])"
| "split_once sep (c # cs) =
     (if c = sep then ([], cs) else (case split_once sep cs of (k, v) \<Rightarrow> (c # k, v)))"

text \<open>\<open>s.split(sep)\<close> without a limit: one part more than there are separators.\<close>

fun split_from :: "nat \<Rightarrow> pystr \<Rightarrow> pystr \<Rightarrow> pystr list" where
  "split_from sep cur [] = [rev cur]"
| "split_from sep cur (c # cs) =
     (if c = sep then rev cur # split_from sep [] cs else split_from sep (c # cur) cs)"

definition split :: "nat \<Rightarrow> pystr \<Rightarrow> pystr list" where
  "split sep s = split_from sep [] s"

section \<open>The event table\<close>

text \<open>\<open>EVENT_MAP\<close>: event kind to human label, emoji and accent colour.\<close>

definition info_emoji :: pystr where "info_emoji = [0x2139, 0xFE0F]"

definition EVENT_MAP :: "(pystr \<times> (pystr \<times> pystr \<times> int)) list" where
  "EVENT_MAP =
    [(lit ''download'', (lit ''Added NZB'', [0x1F4E5], 0xF39C12)),
     (lit ''complete'', (lit ''Job finished'', [0x2705], 0x2ECC71)),
     (lit ''failed'', (lit ''Job failed'', [0x274C], 0xE74C3C)),
     (lit ''error'', (lit ''Error'', [0x1F6D1], 0xE74C3C)),
     (lit ''warning'', (lit ''Warning'', [0x26A0, 0xFE0F], 0xF1C40F)),
     (lit ''queue_done'', (lit ''Queue finished'', info_emoji, 0x3498DB)),
     (lit ''startup'', (lit ''Startup/Shutdown'', info_emoji, 0x3498DB)),
     (lit ''pause_resume'', (lit ''Pause/Resume'', [0x23F8, 0xFE0F], 0x3498DB)),
     (lit ''pp'', (lit ''Post-processing started'', [0x1F527], 0x3498DB)),
     (lit ''disk_full'', (lit ''Disk full'', [0x1F4A5], 0xF1C40F)),
     (lit ''other'', (lit ''Other'', info_emoji, 0x3498DB))]"

section \<open>Field extraction\<close>

text \<open>
  \<open>extract_fields_from_message\<close>: the loop over the lines carries the dictionary
  \<open>fields\<close> (an association list in insertion order; an assignment to a key that is
  there replaces its value in place) and the list \<open>keep_lines\<close>.
\<close>

type_synonym fields = "(pystr \<times> pystr) list"

definition field_keys :: "pystr list" where
  "field_keys = [lit ''category'', lit ''download status'', lit ''status'']"

fun extract_loop :: "pystr list \<Rightarrow> fields \<Rightarrow> pystr list \<Rightarrow> fields \<times> pystr list" where
  "extract_loop [] fields keep_lines = (fields, keep_lines)"
| "extract_loop (line # lines) fields keep_lines =
     (if colon \<in> set line then
        (case split_once colon line of (k, v) \<Rightarrow>
           (let k0 = lower_ascii (strip k); v0 = strip v in
            if k0 \<in> set field_keys then extract_loop lines (AList.update k0 v0 fields) keep_lines
            else extract_loop lines fields (keep_lines @ [line])))
      else extract_loop lines fields (keep_lines @ [line]))"

definition extract_fields_from_message :: "pystr \<Rightarrow> pystr \<times> fields" where
  "extract_fields_from_message msg =
     (case extract_loop (splitlines msg) [] [] of
        (fields, keep_lines) \<Rightarrow> (strip (join LF keep_lines), fields))"

section \<open>The colour glyph\<close>

definition orange_circle :: pystr where "orange_circle = [0x1F7E0]"
definition green_circle :: pystr where "green_circle = [0x1F7E2]"
definition red_circle :: pystr where "red_circle = [0x1F534]"
definition yellow_circle :: pystr where "yellow_circle = [0x1F7E1]"
definition blue_circle :: pystr where "blue_circle = [0x1F535]"
definition white_square :: pystr where "white_square = [0x25AB, 0xFE0F]"

definition color_emoji_for_color :: "int \<Rightarrow> pystr" where
  "color_emoji_for_color color =
     (if color = 0xF39C12 \<or> (0xF00000 \<le> color \<and> color \<le> 0xFFFF00) then orange_circle
      else if color = 0x2ECC71 \<or> (0x00FF00 \<le> color \<and> color \<le> 0x33FF33) then green_circle
      else if color = 0xE74C3C \<or> (0xFF0000 \<le> color \<and> color \<le> 0xFF5555) then red_circle
      else if color = 0xF1C40F then yellow_circle
      else if color = 0x3498DB then blue_circle
      else white_square)"

section \<open>The notification document\<close>

text \<open>
  The dictionaries the script builds are JSON values; an object keeps its keys in
  insertion order.
\<close>

datatype json = JStr pystr | JInt int | JBool bool | JArr "json list" | JObj "(string \<times> json) list"

text \<open>
  \<open>a or b\<close> on optional strings: \<open>None\<close> and the empty string are false, and the
  value is the first operand when it is true, the second otherwise.
\<close>

definition truthy :: "pystr option \<Rightarrow> bool" where
  "truthy a = (case a of None \<Rightarrow> False | Some v \<Rightarrow> v \<noteq> [])"

definition or_opt :: "pystr option \<Rightarrow> pystr option \<Rightarrow> pystr option" where
  "or_opt a b = (if truthy a then a else b)"

definition or_str :: "pystr option \<Rightarrow> pystr \<Rightarrow> pystr" where
  "or_str a b = (case a of None \<Rightarrow> b | Some v \<Rightarrow> if v \<noteq> [] then v else b)"

text \<open>The local variables \<open>category\<close> and \<open>download_status\<close> of \<open>make_embed\<close>.\<close>

definition category :: "fields \<Rightarrow> pystr \<Rightarrow> pystr" where
  "category parsed_fields ntype = or_str (map_of parsed_fields (lit ''category'')) ntype"

definition download_status :: "fields \<Rightarrow> pystr \<Rightarrow> pystr" where
  "download_status parsed_fields ntype =
     or_str (or_opt (map_of parsed_fields (lit ''download status''))
                    (map_of parsed_fields (lit ''status''))) ntype"

text \<open>
  Floating point: a Python \<open>float\<close> operation returns the rounded exact result.
  The rounding is the parameter \<open>fl\<close>; \<open>abs\<close>, the comparisons and \<open>round\<close> are
  exact. \<open>x % y\<close> has the sign of \<open>y\<close>; \<open>round\<close> rounds a tie to the even
  neighbour; \<open>n << k\<close> on Python's unbounded integers is \<open>push_bit k n\<close>.
\<close>

definition fmod :: "real \<Rightarrow> real \<Rightarrow> real" where
  "fmod x y = x - y * of_int \<lfloor>x / y\<rfloor>"

definition py_round :: "real \<Rightarrow> int" where
  "py_round x =
     (let f = \<lfloor>x\<rfloor>; d = x - of_int f in
      if d < 1 / 2 then f else if 1 / 2 < d then f + 1 else if even f then f else f + 1)"

definition hsl_to_rgb_int :: "(real \<Rightarrow> real) \<Rightarrow> real \<Rightarrow> real \<Rightarrow> real \<Rightarrow> int" where
  "hsl_to_rgb_int fl h s l =
     (let c = fl (fl (1 - \<bar>fl (fl (2 * l) - 1)\<bar>) * s);
          hp = fl (h / 60);
          x = fl (c * fl (1 - \<bar>fl (fl (fmod hp 2) - 1)\<bar>)) in
      case (if 0 \<le> hp \<and> hp < 1 then (c, x, 0)
            else if 1 \<le> hp \<and> hp < 2 then (x, c, 0)
            else if 2 \<le> hp \<and> hp < 3 then (0, c, x)
            else if 3 \<le> hp \<and> hp < 4 then (0, x, c)
            else if 4 \<le> hp \<and> hp < 5 then (x, 0, c)
            else (c, 0, x)) of
        (r1, g1, b1) \<Rightarrow>
          (let m = fl (l - fl (c / 2));
               r = py_round (fl (fl (r1 + m) * 255));
               g = py_round (fl (fl (g1 + m) * 255));
               b = py_round (fl (fl (b1 + m) * 255)) in
           push_bit 16 r + push_bit 8 g + b))"

text \<open>
  \<open>make_embed\<close>. \<open>now\<close> is the text of \<open>datetime.datetime.utcnow().isoformat()\<close>,
  \<open>fl\<close> the rounding of floating point and \<open>ucapitalize\<close> the case table behind
  \<open>str.capitalize\<close>.
  The key \<open>thumbnail\<close> is new when it is assigned, so it goes to the end of the object.
\<close>

definition DEFAULT_SAB_ICON :: pystr where
  "DEFAULT_SAB_ICON = lit ''https://github.com/sabnzbd.png''"

text \<open>The lookup \<open>EVENT_MAP.get(ntype, ...)\<close> with its default.\<close>

definition map_entry :: "(pystr \<Rightarrow> pystr) \<Rightarrow> pystr \<Rightarrow> pystr \<times> pystr \<times> int" where
  "map_entry ucapitalize ntype =
     (case map_of EVENT_MAP ntype of
        Some entry \<Rightarrow> entry
      | None \<Rightarrow> (str_capitalize ucapitalize ntype, info_emoji, 0x3498DB))"

definition make_embed ::
  "(pystr \<Rightarrow> pystr) \<Rightarrow> (real \<Rightarrow> real) \<Rightarrow> pystr \<Rightarrow> pystr \<Rightarrow> pystr \<Rightarrow> pystr \<Rightarrow> pystr list \<Rightarrow> json" where
  "make_embed ucapitalize fl now ntype title body urls =
     (case map_entry ucapitalize ntype of
        (label, emoji, color) \<Rightarrow>
     (case extract_fields_from_message body of
        (description, parsed_fields) \<Rightarrow>
       (let circle = color_emoji_for_color color;
            title_text = lit ''SABnzbd: '' @ emoji @ [SP] @ label;
            category_value = circle @ [SP] @ category parsed_fields ntype;
            download_status_value = emoji @ [SP] @ download_status parsed_fields ntype;
            hsla_color_int = hsl_to_rgb_int fl 37 1 (1 / 2);
            final_color = (if color \<noteq> 0 then color else hsla_color_int);
            embed =
              [(''title'', JStr title_text),
               (''description'', JStr (if description \<noteq> [] then description else title)),
               (''color'', JInt final_color),
               (''timestamp'', JStr now),
               (''author'', JObj [(''name'', JStr (lit ''SABnzbd'')),
                                  (''icon_url'', JStr DEFAULT_SAB_ICON)]),
               (''fields'', JArr
                  [JObj [(''name'', JStr (lit ''Category'')),
                         (''value'', JStr category_value), (''inline'', JBool True)],
                   JObj [(''name'', JStr (lit ''Download Status'')),
                         (''value'', JStr download_status_value), (''inline'', JBool True)]]),
               (''footer'', JObj [(''text'', JStr (lit ''SABnzbd Notification''))])]
        in JObj (case urls of
                   [] \<Rightarrow> embed
                 | u # _ \<Rightarrow> AList.update ''thumbnail'' (JObj [(''url'', JStr u)]) embed))))"

text \<open>Reading a key of an object, as \<open>dict.get\<close> does.\<close>

definition jget :: "string \<Rightarrow> json \<Rightarrow> json option" where
  "jget k j = (case j of JObj kvs \<Rightarrow> map_of kvs k | _ \<Rightarrow> None)"

section \<open>Delivery\<close>

text \<open>
  The network is the parameter \<open>net\<close>: what \<open>urllib\<close> does with a request for a URL
  and a body. \<open>Bad_url\<close>: \<open>urllib.request.Request\<close> refuses the URL with a
  \<open>ValueError\<close>, before the \<open>try\<close>. \<open>Status code\<close>: \<open>urlopen\<close> returns a response
  with that code. \<open>HTTP_error code\<close>: \<open>urlopen\<close> raises \<open>HTTPError\<close>.
  \<open>Other_error\<close>: \<open>urlopen\<close> raises any other exception. The request always
  carries the same three headers and the timeout 10. The body is the payload, whose
  serialisation by \<open>json.dumps\<close> is not modelled. The effects of \<open>send_webhook\<close>
  are a list of events: the payload shown in debug mode, and each request handed to
  \<open>urlopen\<close>. The diagnostic lines written to \<open>stderr\<close> are left out.
\<close>

datatype error = ValueError

datatype reply = Bad_url | Status int | HTTP_error int | Other_error

datatype event = Shown json | Posted pystr json

definition payload_of :: "pystr option \<Rightarrow> pystr option \<Rightarrow> json \<Rightarrow> (string \<times> json) list" where
  "payload_of username avatar_url embed_doc =
     (let payload = [(''embeds'', JArr [embed_doc])];
          payload = (case username of
                       None \<Rightarrow> payload
                     | Some u \<Rightarrow> if u \<noteq> [] then AList.update ''username'' (JStr u) payload
                                else payload)
      in case avatar_url of
           None \<Rightarrow> payload
         | Some a \<Rightarrow> if a \<noteq> [] then AList.update ''avatar_url'' (JStr a) payload else payload)"

definition send_webhook ::
  "(pystr \<Rightarrow> json \<Rightarrow> reply) \<Rightarrow> pystr \<Rightarrow> pystr option \<Rightarrow> pystr option \<Rightarrow> json \<Rightarrow> bool
     \<Rightarrow> (error + bool) \<times> event list" where
  "send_webhook net webhook_url username avatar_url embed_doc debug =
     (let payload = JObj (payload_of username avatar_url embed_doc) in
      if debug then (Inr True, [Shown payload])
      else (case net webhook_url payload of
              Bad_url \<Rightarrow> (Inl ValueError, [])
            | Status code \<Rightarrow> (Inr (200 \<le> code \<and> code < 300), [Posted webhook_url payload])
            | HTTP_error code \<Rightarrow> (Inr False, [Posted webhook_url payload])
            | Other_error \<Rightarrow> (Inr False, [Posted webhook_url payload])))"

section \<open>The command\<close>

text \<open>
  \<open>main\<close>. The module constants \<open>DEFAULT_WEBHOOK\<close> and \<open>DEFAULT_DEBUG\<close> are
  parameters: the file ships with an empty webhook, which the operator is told to
  replace. The result is the exit status, or the exception that leaves \<open>main\<close>.
\<close>

definition DEFAULT_USERNAME :: "pystr option" where
  "DEFAULT_USERNAME = Some (lit ''SABnzbd'')"

definition DEFAULT_AVATAR :: "pystr option" where
  "DEFAULT_AVATAR = Some (lit ''https://github.com/sabnzbd.png'')"

definition urls_of :: "pystr list \<Rightarrow> pystr list" where
  "urls_of args = concat (map (\<lambda>u. filter (\<lambda>p. p \<noteq> []) (map strip (split comma u))) args)"

definition main ::
  "(pystr \<Rightarrow> pystr) \<Rightarrow> (pystr \<Rightarrow> pystr) \<Rightarrow> pystr option \<Rightarrow> bool \<Rightarrow> (real \<Rightarrow> real) \<Rightarrow> pystr \<Rightarrow> (pystr \<Rightarrow> json \<Rightarrow> reply) \<Rightarrow> pystr list
     \<Rightarrow> (error + int) \<times> event list" where
  "main ulower ucapitalize DEFAULT_WEBHOOK DEFAULT_DEBUG fl now net argv =
     (case DEFAULT_WEBHOOK of
        None \<Rightarrow> (Inr 2, [])
      | Some final_webhook \<Rightarrow>
          if final_webhook = [] then (Inr 2, [])
          else if length argv < 3 then (Inr 1, [])
          else
            (let ntype = str_lower ulower (strip (argv ! 0));
                 title = argv ! 1;
                 message = argv ! 2;
                 urls = urls_of (drop 3 argv);
                 embed = make_embed ucapitalize fl now ntype title message urls in
             case send_webhook net final_webhook DEFAULT_USERNAME DEFAULT_AVATAR embed
                    DEFAULT_DEBUG of
               (Inl e, events) \<Rightarrow> (Inl e, events)
             | (Inr ok, events) \<Rightarrow> (Inr (if ok then 0 else 1), events)))"

section \<open>The specification's words\<close>

text \<open>
  A line of the message as the specification reads it: the key of a line is the text
  before its first colon, trimmed and lower-cased, when the line has a colon and that
  text is one of the three field names; the value is the text after the first colon,
  trimmed.
\<close>

definition key_of_line :: "pystr \<Rightarrow> pystr option" where
  "key_of_line line =
     (let k0 = lower_ascii (strip (takeWhile (\<lambda>c. c \<noteq> colon) line)) in
      if colon \<in> set line \<and> k0 \<in> set field_keys then Some k0 else None)"

definition value_of_line :: "pystr \<Rightarrow> pystr" where
  "value_of_line line = strip (tl (dropWhile (\<lambda>c. c \<noteq> colon) line))"

text \<open>
  The resolution of the two field values: a field of the message counts when it is
  there and its value is not empty.
\<close>

definition given :: "fields \<Rightarrow> pystr \<Rightarrow> pystr option" where
  "given fm k = (case map_of fm k of None \<Rightarrow> None | Some v \<Rightarrow> if v = [] then None else Some v)"

definition resolved_category :: "fields \<Rightarrow> pystr \<Rightarrow> pystr" where
  "resolved_category fm kind = (case given fm (lit ''category'') of Some v \<Rightarrow> v | None \<Rightarrow> kind)"

definition resolved_status :: "fields \<Rightarrow> pystr \<Rightarrow> pystr" where
  "resolved_status fm kind =
     (case given fm (lit ''download status'') of
        Some v \<Rightarrow> v
      | None \<Rightarrow> (case given fm (lit ''status'') of Some v \<Rightarrow> v | None \<Rightarrow> kind))"

text \<open>
  The conversion from HSL as the specification writes it, in exact arithmetic: chroma,
  hue segment, secondary component, the six segments of width one that cover
  \<open>[0, 6)\<close>, lightness offset, each channel rounded, and the channels packed with
  bitwise or. Outside \<open>[0, 6)\<close> the specification names no segment; the channels
  are \<open>(0, 0, 0)\<close> there.
\<close>

definition hsl_to_rgb_spec :: "real \<Rightarrow> real \<Rightarrow> real \<Rightarrow> int" where
  "hsl_to_rgb_spec h s l =
     (let c = (1 - \<bar>2 * l - 1\<bar>) * s;
          hp = h / 60;
          x = c * (1 - \<bar>fmod hp 2 - 1\<bar>);
          m = l - c / 2 in
      case (if 0 \<le> hp \<and> hp < 1 then (c, x, 0)
            else if 1 \<le> hp \<and> hp < 2 then (x, c, 0)
            else if 2 \<le> hp \<and> hp < 3 then (0, c, x)
            else if 3 \<le> hp \<and> hp < 4 then (0, x, c)
            else if 4 \<le> hp \<and> hp < 5 then (x, 0, c)
            else if 5 \<le> hp \<and> hp < 6 then (c, 0, x)
            else (0, 0, 0)) of
        (r1, g1, b1) \<Rightarrow>
          or (push_bit 16 (round ((r1 + m) * 255)))
             (or (push_bit 8 (round ((g1 + m) * 255))) (round ((b1 + m) * 255))))"

text \<open>
  A rounding of floating point: on the numbers up to 1024 in size, the rounded value is
  within \<open>1 / 2 ^ 40\<close> of the exact one. Rounding to the nearest double is within
  \<open>1 / 2 ^ 44\<close> there. \<open>grid_round\<close>, rounding to the nearest multiple of
  \<open>1 / 2 ^ 44\<close>, is one such rounding.
\<close>

definition rounding :: "(real \<Rightarrow> real) \<Rightarrow> bool" where
  "rounding fl \<longleftrightarrow> (\<forall>x. \<bar>x\<bar> \<le> 1024 \<longrightarrow> \<bar>fl x - x\<bar> \<le> 1 / 2 ^ 40)"

definition grid_round :: "real \<Rightarrow> real" where
  "grid_round x = of_int (round (x * 2 ^ 44)) / 2 ^ 44"

section \<open>Evaluation\<close>

lemmas text_defs = lit_def colon_def comma_def LF_def CR_def SP_def isspace_def islinebreak_def
  strip_def lower_ascii_def lower_cp_def upper_cp_def is_ascii_def str_lower_def
  str_capitalize_def splitlines_def split_def field_keys_def
  extract_fields_from_message_def Let_def

section \<open>The colour glyph of the yellow kinds\<close>

text \<open>
  C1. The glyph of the yellow accent colour \<open>0xF1C40F\<close>, the colour of the kinds
  \<open>warning\<close> and \<open>disk_full\<close>: the range test of the orange case comes before the
  exact test for yellow and takes the colour, which lies between \<open>0xF00000\<close> and
  \<open>0xFFFF00\<close>. The glyph is the orange circle, the Category value of a
  \<open>warning\<close> starts with it, and no colour reaches the yellow case.
\<close>

theorem color_emoji_yellow_is_orange:
  "color_emoji_for_color 0xF1C40F = orange_circle
   \<and> color_emoji_for_color 0xF1C40F \<noteq> yellow_circle
   \<and> (\<forall>color. color_emoji_for_color color \<noteq> yellow_circle)
   \<and> jget ''fields'' (make_embed (\<lambda>s. s) (\<lambda>x. x) [] (lit ''warning'') (lit ''T'') (lit ''M'') []) =
       Some (JArr
         [JObj [(''name'', JStr (lit ''Category'')),
                (''value'', JStr (orange_circle @ [SP] @ lit ''warning'')),
                (''inline'', JBool True)],
          JObj [(''name'', JStr (lit ''Download Status'')),
                (''value'', JStr ([0x26A0, 0xFE0F] @ [SP] @ lit ''warning'')),
                (''inline'', JBool True)]])"
  by (simp add: color_emoji_for_color_def orange_circle_def yellow_circle_def
      green_circle_def red_circle_def blue_circle_def white_square_def
      jget_def make_embed_def map_entry_def EVENT_MAP_def category_def download_status_def
      or_str_def or_opt_def truthy_def text_defs)

section \<open>Field extraction, line by line\<close>

lemma split_once_eq:
  "split_once sep s = (takeWhile (\<lambda>c. c \<noteq> sep) s, tl (dropWhile (\<lambda>c. c \<noteq> sep) s))"
  by (induction s) auto

text \<open>The loop, from any dictionary and any list of kept lines.\<close>

lemma extract_loop_fields:
  "map_of (fst (extract_loop lines fields keep)) k =
     (let ls = filter (\<lambda>l. key_of_line l = Some k) lines in
      if ls = [] then map_of fields k else Some (value_of_line (last ls)))"
proof (induction lines arbitrary: fields keep)
  case Nil
  then show ?case by simp
next
  case (Cons line lines)
  show ?case
  proof (cases "key_of_line line")
    case None
    then show ?thesis
      using Cons.IH by (auto simp: key_of_line_def split_once_eq Let_def)
  next
    case (Some k0)
    then have c: "colon \<in> set line"
      and k0: "k0 = lower_ascii (strip (takeWhile (\<lambda>c. c \<noteq> colon) line))"
      and m: "k0 \<in> set field_keys"
      by (auto simp: key_of_line_def Let_def split: if_splits)
    have step: "extract_loop (line # lines) fields keep =
        extract_loop lines (AList.update k0 (value_of_line line) fields) keep"
      using c k0 m by (simp add: split_once_eq Let_def value_of_line_def)
    show ?thesis
      unfolding step
      using Some Cons.IH [of "AList.update k0 (value_of_line line) fields" keep]
      by (auto simp: Let_def update_conv')
  qed
qed

lemma extract_loop_keep:
  "snd (extract_loop lines fields keep) = keep @ filter (\<lambda>l. key_of_line l = None) lines"
proof (induction lines arbitrary: fields keep)
  case Nil
  then show ?case by simp
next
  case (Cons line lines)
  then show ?case
    by (auto simp: key_of_line_def split_once_eq Let_def)
qed

text \<open>
  C7. Extraction is line-scoped. The cleaned description is made of exactly the lines
  that have no key (no colon, or another text before the first colon), in their order,
  joined and trimmed; a field name \<open>k\<close> is in the field map exactly when some line
  has the key \<open>k\<close>, and its value is the value of the last such line, read after the
  first colon of that line.
\<close>

theorem line_scoped_extraction:
  "fst (extract_fields_from_message msg) =
     strip (join LF (filter (\<lambda>l. key_of_line l = None) (splitlines msg)))
   \<and> map_of (snd (extract_fields_from_message msg)) k =
     (let ls = filter (\<lambda>l. key_of_line l = Some k) (splitlines msg) in
      if ls = [] then None else Some (value_of_line (last ls)))"
  using extract_loop_fields [of "splitlines msg" "[]" "[]" k]
    extract_loop_keep [of "splitlines msg" "[]" "[]"]
  by (cases "extract_loop (splitlines msg) [] []")
    (simp add: extract_fields_from_message_def Let_def)

text \<open>
  The message of three lines \<open>Category: Movies\<close>,
  \<open>Download Status: Extracting\<close>, \<open>All good\<close>: two fields, and the last
  line is the cleaned description.
\<close>

lemma extraction_example:
  "extract_fields_from_message
     (lit ''Category: Movies'' @ [LF] @ lit ''Download Status: Extracting'' @ [LF] @
      lit ''All good'') =
   (lit ''All good'',
    [(lit ''category'', lit ''Movies''), (lit ''download status'', lit ''Extracting'')])"
  by (simp add: text_defs)

section \<open>Extraction run twice\<close>

lemma colon_not_space: "\<not> isspace colon"
  by (simp add: isspace_def colon_def)

lemma linebreak_is_space: "islinebreak c \<Longrightarrow> isspace c"
  by (auto simp: islinebreak_def isspace_def)

lemma LF_linebreak: "islinebreak LF"
  by (simp add: islinebreak_def LF_def)

lemma CR_linebreak: "islinebreak CR"
  by (simp add: islinebreak_def CR_def)

lemma strip_Cons_space: "isspace c \<Longrightarrow> strip (c # s) = strip s"
  by (simp add: strip_def)

lemma strip_snoc_space: "isspace c \<Longrightarrow> strip (s @ [c]) = strip s"
proof (induction s)
  case Nil
  then show ?case by (simp add: strip_def)
next
  case (Cons a s)
  show ?case
  proof (cases "isspace a")
    case True
    with Cons show ?thesis by (simp add: strip_def)
  next
    case False
    with Cons.prems show ?thesis by (simp add: strip_def)
  qed
qed

lemma key_of_line_Cons_space: "isspace c \<Longrightarrow> key_of_line (c # l) = key_of_line l"
  using colon_not_space by (auto simp: key_of_line_def Let_def strip_Cons_space)

lemma takeWhile_snoc_in: "x \<in> set l \<Longrightarrow> takeWhile (\<lambda>c. c \<noteq> x) (l @ [d]) = takeWhile (\<lambda>c. c \<noteq> x) l"
  by (induction l) auto

lemma takeWhile_notin: "x \<notin> set l \<Longrightarrow> takeWhile (\<lambda>c. c \<noteq> x) l = l"
  by (induction l) auto

lemma key_of_line_snoc_space: "isspace c \<Longrightarrow> key_of_line (l @ [c]) = key_of_line l"
  using colon_not_space
  by (cases "colon \<in> set l") (auto simp: key_of_line_def Let_def takeWhile_snoc_in)


lemma splitlines_from_cur:
  "splitlines_from cur t =
     (case splitlines_from [] t of
        [] \<Rightarrow> (if cur = [] then [] else [rev cur])
      | l # ls \<Rightarrow> (rev cur @ l) # ls)"
proof (induction t arbitrary: cur)
  case Nil
  then show ?case by simp
next
  case (Cons c cs)
  show ?case
  proof (cases "(c = CR \<and> cs \<noteq> [] \<and> hd cs = LF) \<or> islinebreak c")
    case True
    then show ?thesis by auto
  next
    case False
    then have l: "splitlines_from cur (c # cs) = splitlines_from (c # cur) cs"
      and r: "splitlines_from [] (c # cs) = splitlines_from [c] cs"
      by auto
    show ?thesis
      unfolding l r
      by (subst Cons.IH [of "c # cur"], subst Cons.IH [of "[c]"]) (simp split: list.split)
  qed
qed

lemma splitlines_Cons_plain:
  "\<not> islinebreak c \<Longrightarrow>
   splitlines (c # t) = (case splitlines t of [] \<Rightarrow> [[c]] | l # ls \<Rightarrow> (c # l) # ls)"
  using CR_linebreak splitlines_from_cur [of "[c]" t]
  by (auto simp: splitlines_def split: list.split)

text \<open>Dropping a leading space keeps every line free of keys.\<close>

lemma nokey_Cons_space:
  assumes "isspace c" and "\<forall>l \<in> set (splitlines (c # t)). key_of_line l = None"
  shows "\<forall>l \<in> set (splitlines t). key_of_line l = None"
proof (cases "islinebreak c")
  case False
  show ?thesis
  proof (cases "splitlines t")
    case Nil
    then show ?thesis by simp
  next
    case (Cons l ls)
    with False assms(2) have "key_of_line (c # l) = None" and "\<forall>l \<in> set ls. key_of_line l = None"
      by (simp_all add: splitlines_Cons_plain)
    with assms(1) Cons show ?thesis
      by (simp add: key_of_line_Cons_space)
  qed
next
  case True
  show ?thesis
  proof (cases "c = CR \<and> t \<noteq> [] \<and> hd t = LF")
    case True
    then obtain t' where t: "t = LF # t'"
      by (cases t) auto
    have "LF \<noteq> CR" by (simp add: LF_def CR_def)
    then have "splitlines t = [] # splitlines t'"
      using LF_linebreak by (simp add: t splitlines_def)
    moreover have "splitlines (c # t) = [] # splitlines t'"
      using True by (simp add: t splitlines_def)
    ultimately show ?thesis
      using assms(2) by simp
  next
    case False
    with True have "splitlines (c # t) = [] # splitlines t"
      by (auto simp: splitlines_def)
    with assms(2) show ?thesis by simp
  qed
qed

lemma nokey_lstrip:
  "\<forall>l \<in> set (splitlines t). key_of_line l = None \<Longrightarrow>
   \<forall>l \<in> set (splitlines (dropWhile isspace t)). key_of_line l = None"
proof (induction t)
  case Nil
  then show ?case by simp
next
  case (Cons c t)
  then show ?case
    using nokey_Cons_space [of c t] by (cases "isspace c") auto
qed


text \<open>A space appended to the text: every old line is a line still, or has the space appended.\<close>

lemma splitlines_from_snoc:
  assumes "isspace c"
  shows "\<forall>l \<in> set (splitlines_from cur t).
           l \<in> set (splitlines_from cur (t @ [c])) \<or> l @ [c] \<in> set (splitlines_from cur (t @ [c]))"
proof (induction cur t rule: splitlines_from.induct)
  case (1 cur)
  then show ?case by auto
next
  case (2 cur d ds)
  show ?case
  proof (cases "d = CR \<and> ds \<noteq> [] \<and> hd ds = LF")
    case True
    then have "splitlines_from cur (d # ds) = rev cur # splitlines_from [] (tl ds)"
      and "splitlines_from cur ((d # ds) @ [c]) = rev cur # splitlines_from [] (tl ds @ [c])"
      by auto
    with 2(1) [OF True] show ?thesis by auto
  next
    case A: False
    show ?thesis
    proof (cases "islinebreak d")
      case True
      have l: "splitlines_from cur (d # ds) = rev cur # splitlines_from [] ds"
        using A True by auto
      show ?thesis
      proof (cases "d = CR \<and> ds = [] \<and> c = LF")
        case True
        then show ?thesis using CR_linebreak by auto
      next
        case False
        with A have "\<not> (d = CR \<and> ds @ [c] \<noteq> [] \<and> hd (ds @ [c]) = LF)"
          by (cases ds) auto
        with True have "splitlines_from cur ((d # ds) @ [c]) = rev cur # splitlines_from [] (ds @ [c])"
          by auto
        with l 2(2) [OF A True] show ?thesis by auto
      qed
    next
      case False
      then have "d \<noteq> CR" using CR_linebreak by auto
      with False have "splitlines_from cur (d # ds) = splitlines_from (d # cur) ds"
        and "splitlines_from cur ((d # ds) @ [c]) = splitlines_from (d # cur) (ds @ [c])"
        by auto
      with 2(3) [OF A False] show ?thesis by auto
    qed
  qed
qed

lemma nokey_snoc_space:
  assumes "isspace c" and "\<forall>l \<in> set (splitlines (t @ [c])). key_of_line l = None"
  shows "\<forall>l \<in> set (splitlines t). key_of_line l = None"
proof
  fix l
  assume "l \<in> set (splitlines t)"
  then have "l \<in> set (splitlines (t @ [c])) \<or> l @ [c] \<in> set (splitlines (t @ [c]))"
    using splitlines_from_snoc [OF assms(1), of "[]" t] by (simp add: splitlines_def)
  then show "key_of_line l = None"
    using assms by (auto simp: key_of_line_snoc_space)
qed

lemma nokey_rstrip:
  "\<forall>l \<in> set (splitlines t). key_of_line l = None \<Longrightarrow>
   \<forall>l \<in> set (splitlines (rev (dropWhile isspace (rev t)))). key_of_line l = None"
proof (induction t rule: rev_induct)
  case Nil
  then show ?case by simp
next
  case (snoc c t)
  then show ?case
    using nokey_snoc_space [of c t] by (cases "isspace c") auto
qed

lemma nokey_strip:
  "\<forall>l \<in> set (splitlines t). key_of_line l = None \<Longrightarrow>
   \<forall>l \<in> set (splitlines (strip t)). key_of_line l = None"
  unfolding strip_def by (intro nokey_rstrip nokey_lstrip)

text \<open>The lines of a text hold no line boundary.\<close>

lemma splitlines_from_plain:
  "\<forall>c \<in> set cur. \<not> islinebreak c \<Longrightarrow>
   \<forall>l \<in> set (splitlines_from cur t). \<forall>c \<in> set l. \<not> islinebreak c"
proof (induction cur t rule: splitlines_from.induct)
  case (1 cur)
  then show ?case by simp
next
  case (2 cur c cs)
  show ?case
  proof (cases "c = CR \<and> cs \<noteq> [] \<and> hd cs = LF")
    case True
    then have e: "splitlines_from cur (c # cs) = rev cur # splitlines_from [] (tl cs)"
      by simp
    have "\<forall>l \<in> set (splitlines_from [] (tl cs)). \<forall>c \<in> set l. \<not> islinebreak c"
      using 2(1) [OF True] by simp
    with 2(4) show ?thesis
      unfolding e by simp
  next
    case A: False
    show ?thesis
    proof (cases "islinebreak c")
      case True
      with A have e: "splitlines_from cur (c # cs) = rev cur # splitlines_from [] cs"
        by auto
      have "\<forall>l \<in> set (splitlines_from [] cs). \<forall>c \<in> set l. \<not> islinebreak c"
        using 2(2) [OF A True] by simp
      with 2(4) show ?thesis
        unfolding e by simp
    next
      case False
      with A have e: "splitlines_from cur (c # cs) = splitlines_from (c # cur) cs"
        by auto
      from False 2(4) have "\<forall>x \<in> set (c # cur). \<not> islinebreak x"
        by simp
      then show ?thesis
        unfolding e by (rule 2(3) [OF A False])
    qed
  qed
qed

lemma splitlines_plain: "l \<in> set (splitlines t) \<Longrightarrow> c \<in> set l \<Longrightarrow> \<not> islinebreak c"
  using splitlines_from_plain [of "[]" t] by (auto simp: splitlines_def)

text \<open>Lines without a boundary, joined by LF and split again, are among the lines joined.\<close>

lemma splitlines_from_append_plain:
  "\<forall>c \<in> set l. \<not> islinebreak c \<Longrightarrow>
   splitlines_from cur (l @ rest) = splitlines_from (rev l @ cur) rest"
proof (induction l arbitrary: cur)
  case Nil
  then show ?case by simp
next
  case (Cons a l)
  then have "a \<noteq> CR" using CR_linebreak by auto
  with Cons show ?case by simp
qed

lemma join_Cons: "ps \<noteq> [] \<Longrightarrow> join sep (p # ps) = p @ sep # join sep ps"
  by (cases ps) auto

lemma splitlines_join_subset:
  "\<forall>l \<in> set K. \<forall>c \<in> set l. \<not> islinebreak c \<Longrightarrow> set (splitlines (join LF K)) \<subseteq> set K"
proof (induction K)
  case Nil
  then show ?case by (simp add: splitlines_def)
next
  case (Cons p K)
  show ?case
  proof (cases "K = []")
    case True
    then show ?thesis
      using Cons.prems splitlines_from_append_plain [of p "[]" "[]"]
      by (auto simp: splitlines_def split: if_splits)
  next
    case False
    have "LF \<noteq> CR" by (simp add: LF_def CR_def)
    then have "splitlines (join LF (p # K)) = p # splitlines (join LF K)"
      using Cons.prems False LF_linebreak
        splitlines_from_append_plain [of p "[]" "LF # join LF K"]
      by (simp add: splitlines_def join_Cons)
    with Cons show ?thesis by auto
  qed
qed

lemma join_plain:
  "\<forall>l \<in> set K. \<forall>c \<in> set l. \<not> islinebreak c \<Longrightarrow> c \<in> set (join LF K) \<Longrightarrow> islinebreak c \<Longrightarrow> c = LF"
  by (induction LF K rule: join.induct) auto

lemma splitlines_from_empty: "splitlines_from cur t = [] \<longleftrightarrow> cur = [] \<and> t = []"
  by (induction cur t rule: splitlines_from.induct) auto

text \<open>A text whose only boundaries are LF and which does not end in one is the join of its lines.\<close>

lemma join_splitlines_from:
  "\<forall>c \<in> set t. islinebreak c \<longrightarrow> c = LF \<Longrightarrow> (t \<noteq> [] \<longrightarrow> last t \<noteq> LF) \<Longrightarrow>
   join LF (splitlines_from cur t) = rev cur @ t"
proof (induction t arbitrary: cur)
  case Nil
  then show ?case by simp
next
  case (Cons c cs)
  have ne: "LF \<noteq> CR" by (simp add: LF_def CR_def)
  show ?case
  proof (cases "islinebreak c")
    case True
    with Cons.prems have c: "c = LF" and cs: "cs \<noteq> []"
      by auto
    from cs have "splitlines_from [] cs \<noteq> []"
      by (simp add: splitlines_from_empty)
    moreover have "join LF (splitlines_from [] cs) = cs"
      using Cons.IH [of "[]"] Cons.prems cs by simp
    ultimately show ?thesis
      using c ne LF_linebreak by (simp add: join_Cons)
  next
    case False
    then have "c \<noteq> CR" using CR_linebreak by auto
    with False have "splitlines_from cur (c # cs) = splitlines_from (c # cur) cs"
      by simp
    then show ?thesis
      using Cons.IH [of "c # cur"] Cons.prems by (cases "cs = []") auto
  qed
qed

text \<open>What \<open>strip\<close> returns.\<close>

lemma set_strip: "set (strip t) \<subseteq> set t"
proof
  fix x
  assume "x \<in> set (strip t)"
  then have "x \<in> set (dropWhile isspace (rev (dropWhile isspace t)))"
    by (simp add: strip_def)
  then have "x \<in> set (rev (dropWhile isspace t))"
    by (rule set_dropWhileD)
  then have "x \<in> set (dropWhile isspace t)"
    by simp
  then show "x \<in> set t"
    by (rule set_dropWhileD)
qed

lemma strip_last: "strip t \<noteq> [] \<Longrightarrow> \<not> isspace (last (strip t))"
proof -
  assume a: "strip t \<noteq> []"
  then have "dropWhile isspace (rev (dropWhile isspace t)) \<noteq> []"
    by (simp add: strip_def)
  then have "\<not> isspace (hd (dropWhile isspace (rev (dropWhile isspace t))))"
    by (rule hd_dropWhile)
  then show ?thesis
    using a by (simp add: strip_def last_rev)
qed

lemma rstrip_hd:
  "s \<noteq> [] \<Longrightarrow> \<not> isspace (hd s) \<Longrightarrow> rev (dropWhile isspace (rev s)) \<noteq> [] \<and>
     hd (rev (dropWhile isspace (rev s))) = hd s"
proof (induction s rule: rev_induct)
  case Nil
  then show ?case by simp
next
  case (snoc x xs)
  then show ?case by (cases xs) auto
qed

lemma strip_hd: "strip t \<noteq> [] \<Longrightarrow> \<not> isspace (hd (strip t))"
proof -
  assume a: "strip t \<noteq> []"
  have ne: "dropWhile isspace t \<noteq> []"
  proof
    assume "dropWhile isspace t = []"
    then have "strip t = []" by (simp only: strip_def) simp
    with a show False by simp
  qed
  then have "\<not> isspace (hd (dropWhile isspace t))"
    by (rule hd_dropWhile)
  with ne show ?thesis
    using rstrip_hd [of "dropWhile isspace t"] by (simp add: strip_def)
qed

lemma strip_fixed: "s = [] \<or> (\<not> isspace (hd s) \<and> \<not> isspace (last s)) \<Longrightarrow> strip s = s"
proof (cases s rule: rev_cases)
  case Nil
  then show ?thesis by (simp add: strip_def)
next
  case (snoc xs x)
  assume "s = [] \<or> (\<not> isspace (hd s) \<and> \<not> isspace (last s))"
  with snoc have h: "\<not> isspace (hd s)" and x: "\<not> isspace x" by auto
  have "s \<noteq> []" using snoc by simp
  with h have "dropWhile isspace s = s"
    by (cases s) simp_all
  then show ?thesis
    using snoc x by (simp add: strip_def)
qed

lemma strip_strip: "strip (strip t) = strip t"
  using strip_hd [of t] strip_last [of t] by (intro strip_fixed) auto

text \<open>The loop on lines without keys.\<close>

lemma extract_step_nokey:
  "key_of_line line = None \<Longrightarrow>
   extract_loop (line # lines) fields keep = extract_loop lines fields (keep @ [line])"
  by (auto simp: key_of_line_def split_once_eq Let_def split: if_splits)

lemma extract_loop_nokey:
  "\<forall>l \<in> set lines. key_of_line l = None \<Longrightarrow>
   extract_loop lines fields keep = (fields, keep @ lines)"
proof (induction lines arbitrary: keep)
  case Nil
  then show ?case by simp
next
  case (Cons line lines)
  then have "key_of_line line = None" and "\<forall>l \<in> set lines. key_of_line l = None"
    by simp_all
  then show ?case
    using Cons.IH [of "keep @ [line]"] by (simp only: extract_step_nokey) simp
qed

text \<open>
  C8. Extraction run on the cleaned description of a first run finds no field and
  returns the cleaned description as it is: every line of the cleaned description is a
  kept line of the first run, or such a line without spaces at the start of the text or
  at its end, and neither changes the text before a first colon once it is trimmed.
\<close>

theorem extraction_idempotent:
  "extract_fields_from_message (fst (extract_fields_from_message msg)) =
     (fst (extract_fields_from_message msg), [])"
proof -
  define K where "K = filter (\<lambda>l. key_of_line l = None) (splitlines msg)"
  define cleaned where "cleaned = strip (join LF K)"
  have cleaned: "fst (extract_fields_from_message msg) = cleaned"
    using extract_loop_keep [of "splitlines msg" "[]" "[]"]
    by (cases "extract_loop (splitlines msg) [] []")
      (simp add: extract_fields_from_message_def cleaned_def K_def)
  have plain: "\<forall>l \<in> set K. \<forall>c \<in> set l. \<not> islinebreak c"
    using splitlines_plain by (auto simp: K_def)
  have "\<forall>l \<in> set (splitlines (join LF K)). key_of_line l = None"
    using splitlines_join_subset [OF plain] by (auto simp: K_def)
  then have nokey: "\<forall>l \<in> set (splitlines cleaned). key_of_line l = None"
    unfolding cleaned_def by (rule nokey_strip)
  have only_LF: "\<forall>c \<in> set cleaned. islinebreak c \<longrightarrow> c = LF"
    using join_plain [OF plain] set_strip [of "join LF K"] by (auto simp: cleaned_def)
  have "isspace LF" using LF_linebreak by (rule linebreak_is_space)
  then have no_end: "cleaned \<noteq> [] \<longrightarrow> last cleaned \<noteq> LF"
    using strip_last [of "join LF K"] by (auto simp: cleaned_def)
  have "join LF (splitlines cleaned) = cleaned"
    using join_splitlines_from [OF only_LF no_end, of "[]"] by (simp add: splitlines_def)
  moreover have "strip cleaned = cleaned"
    by (simp add: cleaned_def strip_strip)
  ultimately have "extract_fields_from_message cleaned = (cleaned, [])"
    using extract_loop_nokey [OF nokey, of "[]" "[]"]
    by (simp add: extract_fields_from_message_def)
  with cleaned show ?thesis by simp
qed

section \<open>The fields of the document\<close>

lemma or_str_given: "or_str (map_of fm k) kind = (case given fm k of Some v \<Rightarrow> v | None \<Rightarrow> kind)"
  by (simp add: or_str_def given_def split: option.split)

lemma category_resolved: "category fm kind = resolved_category fm kind"
  by (simp add: category_def resolved_category_def or_str_given)

lemma download_status_resolved: "download_status fm kind = resolved_status fm kind"
  by (simp add: download_status_def resolved_status_def or_str_def or_opt_def truthy_def
      given_def split: option.split)

text \<open>
  C3, as stated, fails on a field whose value is empty: the message \<open>Category:\<close>
  puts the key \<open>category\<close> into the field map with the empty string as its value,
  and the resolved category is the event kind, not that value.
\<close>

theorem category_empty_value_counterexample:
  "map_of (snd (extract_fields_from_message (lit ''Category:''))) (lit ''category'') = Some []
   \<and> category (snd (extract_fields_from_message (lit ''Category:''))) (lit ''complete'')
       = lit ''complete''
   \<and> category (snd (extract_fields_from_message (lit ''Category:''))) (lit ''complete'') \<noteq> []
   \<and> jget ''fields''
        (make_embed (\<lambda>s. s) (\<lambda>x. x) [] (lit ''complete'') (lit ''T'') (lit ''Category:'') []) =
       Some (JArr
         [JObj [(''name'', JStr (lit ''Category'')),
                (''value'', JStr (green_circle @ [SP] @ lit ''complete'')),
                (''inline'', JBool True)],
          JObj [(''name'', JStr (lit ''Download Status'')),
                (''value'', JStr ([0x2705] @ [SP] @ lit ''complete'')),
                (''inline'', JBool True)]])"
  by (simp add: category_def download_status_def or_str_def or_opt_def truthy_def
      jget_def make_embed_def map_entry_def EVENT_MAP_def color_emoji_for_color_def
      green_circle_def text_defs)

text \<open>
  C3, amended. The resolved category is the value of \<open>category\<close> in the field map
  when the key is there with a value that is not empty, else the raw event kind; the
  resolved download status is the value of \<open>download status\<close> when it is there and
  not empty, else the value of \<open>status\<close> when it is there and not empty, else the raw
  event kind. The two fields of the document carry these values after the colour glyph
  and the emoji of the kind.
\<close>

theorem category_and_status_resolution:
  "category (snd (extract_fields_from_message body)) ntype =
     resolved_category (snd (extract_fields_from_message body)) ntype
   \<and> download_status (snd (extract_fields_from_message body)) ntype =
     resolved_status (snd (extract_fields_from_message body)) ntype
   \<and> jget ''fields'' (make_embed ucapitalize fl now ntype title body urls) =
       Some (JArr
         [JObj [(''name'', JStr (lit ''Category'')),
                (''value'', JStr (color_emoji_for_color (snd (snd (map_entry ucapitalize ntype))) @ [SP] @
                   resolved_category (snd (extract_fields_from_message body)) ntype)),
                (''inline'', JBool True)],
          JObj [(''name'', JStr (lit ''Download Status'')),
                (''value'', JStr (fst (snd (map_entry ucapitalize ntype)) @ [SP] @
                   resolved_status (snd (extract_fields_from_message body)) ntype)),
                (''inline'', JBool True)]])"
proof -
  obtain label emoji color where e: "map_entry ucapitalize ntype = (label, emoji, color)"
    by (cases "map_entry ucapitalize ntype") auto
  obtain description fm where x: "extract_fields_from_message body = (description, fm)"
    by (cases "extract_fields_from_message body") auto
  show ?thesis
    by (simp add: e x jget_def make_embed_def Let_def update_conv' category_resolved
        download_status_resolved split: list.split)
qed

text \<open>
  C5, as stated, fails when the title is empty and nothing of the message is left: the
  description is the empty string.
\<close>

theorem description_empty_counterexample:
  "jget ''description'' (make_embed (\<lambda>s. s) (\<lambda>x. x) [] (lit ''complete'') [] [] []) = Some (JStr [])"
  by (simp add: jget_def make_embed_def map_entry_def EVENT_MAP_def text_defs)

text \<open>
  C5, amended. The description is the cleaned description when that is not empty and
  the title argument otherwise; it is the empty string exactly when the cleaned
  description and the title are both empty.
\<close>

theorem description_or_title:
  "jget ''description'' (make_embed ucapitalize fl now ntype title body urls) =
     Some (JStr (if fst (extract_fields_from_message body) \<noteq> []
                 then fst (extract_fields_from_message body) else title))
   \<and> ((jget ''description'' (make_embed ucapitalize fl now ntype title body urls) = Some (JStr []))
        = (fst (extract_fields_from_message body) = [] \<and> title = []))"
proof -
  obtain label emoji color where e: "map_entry ucapitalize ntype = (label, emoji, color)"
    by (cases "map_entry ucapitalize ntype") auto
  obtain description fm where x: "extract_fields_from_message body = (description, fm)"
    by (cases "extract_fields_from_message body") auto
  show ?thesis
    by (auto simp: e x jget_def make_embed_def Let_def update_conv' split: list.split)
qed

text \<open>
  C9. The document has the key \<open>thumbnail\<close> exactly when the list of URLs is not
  empty, and its URL is then the first element of the list, whatever follows it.
\<close>

theorem thumbnail_iff_urls:
  "jget ''thumbnail'' (make_embed ucapitalize fl now ntype title body urls) =
     (case urls of [] \<Rightarrow> None | u # rest \<Rightarrow> Some (JObj [(''url'', JStr u)]))
   \<and> ((jget ''thumbnail'' (make_embed ucapitalize fl now ntype title body urls) \<noteq> None) = (urls \<noteq> []))"
proof -
  obtain label emoji color where e: "map_entry ucapitalize ntype = (label, emoji, color)"
    by (cases "map_entry ucapitalize ntype") auto
  obtain description fm where x: "extract_fields_from_message body = (description, fm)"
    by (cases "extract_fields_from_message body") auto
  show ?thesis
    by (simp add: e x jget_def make_embed_def Let_def update_conv' split: list.split)
qed

section \<open>Where the event kind is normalised\<close>











section \<open>Delivery and exit status\<close>

text \<open>
  C10. In debug mode \<open>send_webhook\<close> returns \<open>True\<close> whatever the network would
  do, and its only effect is to show the payload: no request is made. The payload, the
  one a request carries when debug mode is off, is the object with the key
  \<open>embeds\<close> holding the list of the one document, then \<open>username\<close> if the
  argument is a string that is not empty, then \<open>avatar_url\<close> likewise.
\<close>

theorem debug_makes_no_request:
  "send_webhook net webhook_url username avatar_url doc True =
     (Inr True, [Shown (JObj (payload_of username avatar_url doc))])
   \<and> payload_of username avatar_url doc =
       [(''embeds'', JArr [doc])]
       @ (case username of None \<Rightarrow> [] | Some u \<Rightarrow> if u = [] then [] else [(''username'', JStr u)])
       @ (case avatar_url of
            None \<Rightarrow> []
          | Some a \<Rightarrow> if a = [] then [] else [(''avatar_url'', JStr a)])
   \<and> snd (send_webhook net webhook_url username avatar_url doc False) =
       (if net webhook_url (JObj (payload_of username avatar_url doc)) = Bad_url then []
        else [Posted webhook_url (JObj (payload_of username avatar_url doc))])"
  by (simp add: send_webhook_def payload_of_def Let_def split: option.split reply.split)

text \<open>
  C4, as stated, fails for the input error: with a webhook configured, too few
  arguments give the exit status 1, and so does a delivery that the server rejects
  with the status 500, which \<open>urlopen\<close> raises as an \<open>HTTPError\<close>.
\<close>

theorem input_error_exit_counterexample:
  "fst (main (\<lambda>s. s) (\<lambda>s. s) (Some (lit ''http://h/w'')) False (\<lambda>x. x) []
          (\<lambda>url body. HTTP_error 500) []) = Inr 1
   \<and> fst (main (\<lambda>s. s) (\<lambda>s. s) (Some (lit ''http://h/w'')) False (\<lambda>x. x) []
          (\<lambda>url body. HTTP_error 500) [lit ''complete'', lit ''T'', lit ''M'']) = Inr 1"
  by (simp add: main_def send_webhook_def Let_def lit_def)

text \<open>
  C4, amended. The exit status is 2 when no webhook is configured; else 1 when fewer
  than three arguments are given; else 0 when the notification is sent (debug mode, or
  a response with a status from 200 to 299) and 1 when it is rejected or the transport
  fails. So success is 0, every failure is not 0, the configuration error alone has
  the status 2, and the input error shares the status 1 with a failed delivery. A URL
  that \<open>urllib\<close> refuses leaves \<open>main\<close> as a \<open>ValueError\<close>.
\<close>

theorem exit_status_mapping:
  "fst (main ulower ucapitalize DEFAULT_WEBHOOK DEFAULT_DEBUG fl now net argv) =
     (if \<not> truthy DEFAULT_WEBHOOK then Inr 2
      else if length argv < 3 then Inr 1
      else if DEFAULT_DEBUG then Inr 0
      else (case net (the DEFAULT_WEBHOOK)
                  (JObj (payload_of DEFAULT_USERNAME DEFAULT_AVATAR
                     (make_embed ucapitalize fl now (str_lower ulower (strip (argv ! 0))) (argv ! 1)
                        (argv ! 2)
                        (urls_of (drop 3 argv))))) of
              Bad_url \<Rightarrow> Inl ValueError
            | Status code \<Rightarrow> Inr (if 200 \<le> code \<and> code < 300 then 0 else 1)
            | HTTP_error code \<Rightarrow> Inr 1
            | Other_error \<Rightarrow> Inr 1))"
  by (simp add: main_def send_webhook_def truthy_def Let_def split: option.split reply.split)

section \<open>The reference colour\<close>

lemma hsl_spec_37: "hsl_to_rgb_spec 37 1 (1 / 2) = 0xFF9D00"
  by (simp add: hsl_to_rgb_spec_def fmod_def Let_def round_def)

lemma py_round_near:
  assumes "\<bar>v - of_int n\<bar> < 1 / 2"
  shows "py_round v = n"
proof (cases "of_int n \<le> v")
  case True
  with assms have "\<lfloor>v\<rfloor> = n"
    by (intro floor_unique) (auto simp: abs_if split: if_splits)
  with assms True show ?thesis
    by (simp add: py_round_def Let_def)
next
  case False
  with assms have f: "\<lfloor>v\<rfloor> = n - 1"
    by (intro floor_unique) (auto simp: abs_if split: if_splits)
  have "\<not> v - of_int (n - 1) < 1 / 2" "1 / 2 < v - of_int (n - 1)"
    using assms False by (auto simp: abs_if split: if_splits)
  then show ?thesis
    by (simp add: py_round_def Let_def f)
qed


lemma rounding_err: "rounding fl \<Longrightarrow> \<bar>x\<bar> \<le> 1024 \<Longrightarrow> \<bar>fl x - x\<bar> \<le> 1 / 2 ^ 40"
  by (simp add: rounding_def)

lemma hsl_37:
  assumes fl: "rounding fl"
  shows "hsl_to_rgb_int fl 37 1 (1 / 2) = 0xFF9D00"
proof -
  define e :: real where "e = 1 / 2 ^ 40"
  have e: "0 < e" "e \<le> 1 / 1000000" by (simp_all add: e_def)
  have err: "\<bar>fl x - x\<bar> \<le> e" if "\<bar>x\<bar> \<le> 1024" for x
    using rounding_err [OF fl that] by (simp add: e_def)
  define a1 where "a1 = fl (2 * (1 / 2))"
  define a2 where "a2 = fl (a1 - 1)"
  define a4 where "a4 = fl (1 - \<bar>a2\<bar>)"
  define c where "c = fl (a4 * 1)"
  define hp where "hp = fl (37 / 60)"
  define b1 where "b1 = fl (fmod hp 2)"
  define b2 where "b2 = fl (b1 - 1)"
  define b4 where "b4 = fl (1 - \<bar>b2\<bar>)"
  define x where "x = fl (c * b4)"
  define m1 where "m1 = fl (c / 2)"
  define m where "m = fl (1 / 2 - m1)"
  define r where "r = fl (fl (c + m) * 255)"
  define g where "g = fl (fl (x + m) * 255)"
  define b where "b = fl (fl (0 + m) * 255)"
  have a1: "\<bar>a1 - 1\<bar> \<le> e"
    using err [of "2 * (1 / 2)"] by (simp add: a1_def)
  have a2: "\<bar>a2\<bar> \<le> 2 * e"
    using err [of "a1 - 1"] a1 e by (simp add: a2_def; linarith)
  have a4: "\<bar>a4 - 1\<bar> \<le> 3 * e"
    using err [of "1 - \<bar>a2\<bar>"] a2 e by (simp add: a4_def; linarith)
  have c: "\<bar>c - 1\<bar> \<le> 4 * e"
    using err [of "a4 * 1"] a4 e by (simp add: c_def; linarith)
  have hp: "\<bar>hp - 37 / 60\<bar> \<le> e"
    using err [of "37 / 60"] by (simp add: hp_def)
  have hp01: "0 \<le> hp" "hp < 1"
    using hp e by linarith+
  have "\<lfloor>hp / 2\<rfloor> = 0"
    using hp01 by (intro floor_unique) simp_all
  then have fm: "fmod hp 2 = hp"
    by (simp add: fmod_def)
  have b1: "\<bar>b1 - 37 / 60\<bar> \<le> 2 * e"
    using err [of hp] hp e by (simp add: b1_def fm; linarith)
  have b2: "\<bar>b2 + 23 / 60\<bar> \<le> 3 * e"
    using err [of "b1 - 1"] b1 e by (simp add: b2_def; linarith)
  have b4: "\<bar>b4 - 37 / 60\<bar> \<le> 4 * e"
    using err [of "1 - \<bar>b2\<bar>"] b2 e by (simp add: b4_def; linarith)
  have "\<bar>(c - 1) * b4\<bar> \<le> (4 * e) * 1"
    unfolding abs_mult using c b4 e by (intro mult_mono) linarith+
  then have cb: "\<bar>c * b4 - 37 / 60\<bar> \<le> 8 * e"
    using b4 by (simp add: algebra_simps; linarith)
  have x: "\<bar>x - 37 / 60\<bar> \<le> 9 * e"
    using err [of "c * b4"] cb e by (simp add: x_def; linarith)
  have m1: "\<bar>m1 - 1 / 2\<bar> \<le> 3 * e"
    using err [of "c / 2"] c e by (simp add: m1_def; linarith)
  have m: "\<bar>m\<bar> \<le> 4 * e"
    using err [of "1 / 2 - m1"] m1 e by (simp add: m_def; linarith)
  have "\<bar>c + m\<bar> \<le> 1024"
    using c m e by linarith
  then have "\<bar>fl (c + m) - (c + m)\<bar> \<le> e"
    by (rule err)
  then have rr: "\<bar>fl (c + m) - 1\<bar> \<le> 9 * e"
    using c m by linarith
  then have "\<bar>fl (c + m) * 255\<bar> \<le> 1024"
    using e by linarith
  then have "\<bar>r - fl (c + m) * 255\<bar> \<le> e"
    unfolding r_def by (rule err)
  then have r: "\<bar>r - 255\<bar> < 1 / 2"
    using rr e by linarith
  have "\<bar>x + m\<bar> \<le> 1024"
    using x m e by linarith
  then have "\<bar>fl (x + m) - (x + m)\<bar> \<le> e"
    by (rule err)
  then have gg: "\<bar>fl (x + m) - 37 / 60\<bar> \<le> 14 * e"
    using x m by linarith
  then have "\<bar>fl (x + m) * 255\<bar> \<le> 1024"
    using e by linarith
  then have "\<bar>g - fl (x + m) * 255\<bar> \<le> e"
    unfolding g_def by (rule err)
  then have g: "\<bar>g - 629 / 4\<bar> < 1 / 4"
    using gg e by linarith
  have "\<bar>0 + m\<bar> \<le> 1024"
    using m e by linarith
  then have "\<bar>fl (0 + m) - (0 + m)\<bar> \<le> e"
    by (rule err)
  then have bb: "\<bar>fl (0 + m)\<bar> \<le> 5 * e"
    using m by linarith
  then have "\<bar>fl (0 + m) * 255\<bar> \<le> 1024"
    using e by linarith
  then have "\<bar>b - fl (0 + m) * 255\<bar> \<le> e"
    unfolding b_def by (rule err)
  then have b: "\<bar>b\<bar> < 1 / 2"
    using bb e by linarith
  have pr: "py_round r = 255" "py_round g = 157" "py_round b = 0"
  proof -
    show "py_round r = 255" using r by (intro py_round_near) simp
    have "\<bar>g - 157\<bar> < 1 / 2" using g by linarith
    then show "py_round g = 157" by (intro py_round_near) simp
    show "py_round b = 0" using b by (intro py_round_near) simp
  qed
  have "hsl_to_rgb_int fl 37 1 (1 / 2) =
      push_bit 16 (py_round r) + push_bit 8 (py_round g) + py_round b"
    unfolding hsl_to_rgb_int_def Let_def
    using hp01
    by (simp add: r_def g_def b_def m_def m1_def x_def b4_def b2_def b1_def hp_def c_def
        a4_def a2_def a1_def)
  then show ?thesis
    by (simp add: pr)
qed

lemma grid_err:
  fixes k x :: real
  assumes "0 < k"
  shows "\<bar>of_int (round (x * k)) / k - x\<bar> \<le> (1 / 2) / k"
proof -
  have "of_int (round (x * k)) / k - x = (of_int (round (x * k)) - x * k) / k"
    using assms by (simp add: field_simps)
  then have "\<bar>of_int (round (x * k)) / k - x\<bar> = \<bar>of_int (round (x * k)) - x * k\<bar> / k"
    using assms by (simp only: abs_divide abs_of_pos)
  also have "\<dots> \<le> (1 / 2) / k"
    using assms of_int_round_abs_le [of "x * k"] by (intro divide_right_mono) simp_all
  finally show ?thesis .
qed

lemma rounding_grid_round: "rounding grid_round"
  unfolding rounding_def grid_round_def
proof (intro allI impI)
  fix x :: real
  have "\<bar>of_int (round (x * 2 ^ 44)) / 2 ^ 44 - x\<bar> \<le> (1 / 2) / 2 ^ 44"
    by (rule grid_err) simp
  also have "\<dots> \<le> (1 :: real) / 2 ^ 40"
    by simp
  finally show "\<bar>of_int (round (x * 2 ^ 44)) / 2 ^ 44 - x\<bar> \<le> 1 / 2 ^ 40" .
qed

text \<open>
  C6. The call \<open>hsl_to_rgb_int(37.0, 1.0, 0.5)\<close> returns \<open>0xFF9D00\<close>, the
  channels \<open>(255, 157, 0)\<close>, which is the value of the documented formula in exact
  arithmetic, and it returns it under every rounding of the floating-point operations:
  the rounded channel values stay within a quarter of \<open>255\<close>, \<open>157.25\<close> and
  \<open>0\<close>, away from every tie, and the sum of the shifted channels is their bitwise or.
\<close>

theorem hsl_reference_value:
  "rounding fl \<Longrightarrow>
   hsl_to_rgb_int fl 37 1 (1 / 2) = hsl_to_rgb_spec 37 1 (1 / 2)
   \<and> hsl_to_rgb_int fl 37 1 (1 / 2) = 0xFF9D00"
  by (simp add: hsl_37 hsl_spec_37)

theorem hsl_reference_value_witness:
  "rounding grid_round
   \<and> hsl_to_rgb_int grid_round 37 1 (1 / 2) = hsl_to_rgb_spec 37 1 (1 / 2)
   \<and> hsl_to_rgb_int grid_round 37 1 (1 / 2) = 0xFF9D00"
  using rounding_grid_round hsl_reference_value [OF rounding_grid_round] by simp

end
